theory Spec2Isabelle
  imports Complex_Main
begin

section \<open>Shared data: input snapshot, events, save document\<close>

text \<open>
  \<^verbatim>\<open>InputState\<close> of \<^verbatim>\<open>input.py\<close>: four held movement flags and three edge-triggered
  flags. The raw event list that the scenes also receive is reduced to what the scenes
  look at: a \<^verbatim>\<open>KEYDOWN\<close> of \<^verbatim>\<open>K_UP\<close>, of \<^verbatim>\<open>K_DOWN\<close>, or anything else.
\<close>

record input_state =
  up :: bool
  down :: bool
  left :: bool
  right :: bool
  interact_pressed :: bool
  confirm_pressed :: bool
  cancel_pressed :: bool

datatype event = KEYDOWN_K_UP | KEYDOWN_K_DOWN | OTHER_EVENT

datatype py_error = IndexError | KeyError | TypeError | ValueError

text \<open>
  The save document is a Python dict. The scenes read it through typed accessors
  (\<^verbatim>\<open>int(trust.get(npc_id, 0))\<close>, \<^verbatim>\<open>setdefault("trust", {})\<close>, ...), so the model is a record
  whose optional parts say whether the key is present: \<open>None\<close> is an absent key, the
  case \<^verbatim>\<open>setdefault\<close> fills in. \<open>sv_completed\<close> is \<open>None\<close> without a
  \<^verbatim>\<open>"completed"\<close> key and \<open>Some None\<close> when that dict has no \<^verbatim>\<open>"challenges"\<close> key.
\<close>

record save_doc =
  sv_world_map :: "string option"
  sv_player_x :: real
  sv_player_y :: real
  sv_trust :: "(string \<rightharpoonup> int) option"
  sv_scores :: "(string \<rightharpoonup> int) option"
  sv_completed :: "string list option option"

text \<open>
  \<^verbatim>\<open>App\<close> as far as the scenes use it: the in-memory save document and the content of the
  save file (\<open>None\<close> until something is written). \<^verbatim>\<open>save_game\<close> overwrites the file
  with the in-memory document.
\<close>

record app =
  save :: save_doc
  disk :: "save_doc option"

definition save_game :: "app \<Rightarrow> app" where
  "save_game a = a\<lparr>disk := Some (save a)\<rparr>"

text \<open>Selection movement shared by the dialogue and the quiz scene (lines 726-736, 919-929).\<close>

fun key_move :: "int \<Rightarrow> event \<Rightarrow> int" where
  "key_move sel KEYDOWN_K_UP = sel - 1"
| "key_move sel KEYDOWN_K_DOWN = sel + 1"
| "key_move sel OTHER_EVENT = sel"

definition clamp_selection :: "int \<Rightarrow> nat \<Rightarrow> int" where
  "clamp_selection sel n =
     (let s1 = (if sel < 0 then 0 else sel)
      in if s1 \<ge> int n then int n - 1 else s1)"

definition move_selection :: "int \<Rightarrow> event list \<Rightarrow> nat \<Rightarrow> int" where
  "move_selection sel events n = clamp_selection (foldl key_move sel events) n"

section \<open>Quiz engine: \<^verbatim>\<open>ChallengeScene\<close>\<close>

record question =
  q_choices :: "string list"
  q_correct_index :: "int option"
  q_points :: "int option"
  q_explanation :: "string option"

text \<open>\<^verbatim>\<open>int(q.get("points", 100))\<close> and \<^verbatim>\<open>int(q.get("correct_index", 0))\<close>.\<close>

definition points_of :: "question \<Rightarrow> int" where
  "points_of q = (case q_points q of None \<Rightarrow> 100 | Some p \<Rightarrow> p)"

definition correct_of :: "question \<Rightarrow> int" where
  "correct_of q = (case q_correct_index q of None \<Rightarrow> 0 | Some i \<Rightarrow> i)"

text \<open>The parsed quiz document that \<^verbatim>\<open>_load_challenge_set\<close> returns.\<close>

record quiz_doc =
  qd_title :: "string option"
  qd_category :: "string option"
  qd_questions :: "question list option"

record 'r challenge_scene =
  ch_return_scene :: 'r
  ch_challenge_set_id :: string
  ch_title :: string
  ch_category :: string
  ch_questions :: "question list"
  ch_qi :: nat
  ch_selected :: int
  ch_showing_feedback :: bool
  ch_last_correct :: bool
  ch_last_expl :: string
  ch_points_earned :: int
  ch_max_points :: int

text \<open>\<^verbatim>\<open>ChallengeScene.__init__\<close> (lines 865-888): the loop summing \<^verbatim>\<open>max_points\<close> is a left fold.\<close>

definition challenge_init :: "'r \<Rightarrow> string \<Rightarrow> quiz_doc \<Rightarrow> 'r challenge_scene" where
  "challenge_init ret set_id d =
     (let qs = (case qd_questions d of None \<Rightarrow> [] | Some l \<Rightarrow> l)
      in \<lparr> ch_return_scene = ret,
           ch_challenge_set_id = set_id,
           ch_title = (case qd_title d of None \<Rightarrow> set_id | Some t \<Rightarrow> t),
           ch_category = (case qd_category d of None \<Rightarrow> ''phishing'' | Some c \<Rightarrow> c),
           ch_questions = qs,
           ch_qi = 0,
           ch_selected = 0,
           ch_showing_feedback = False,
           ch_last_correct = False,
           ch_last_expl = [],
           ch_points_earned = 0,
           ch_max_points = foldl (\<lambda>acc q. acc + points_of q) 0 qs \<rparr>)"

datatype 'r challenge_result =
    ChStay
  | ChReturn 'r
  | ChResults 'r string int int

text \<open>
  Lines 912-914: \<^verbatim>\<open>comp = save.setdefault("completed", {}).setdefault("challenges", [])\<close>,
  then append the set id unless it is already in the list.
\<close>

definition completed_challenges :: "save_doc \<Rightarrow> string list" where
  "completed_challenges sv =
     (case sv_completed sv of None \<Rightarrow> [] | Some None \<Rightarrow> [] | Some (Some l) \<Rightarrow> l)"

definition record_completed :: "string \<Rightarrow> save_doc \<Rightarrow> save_doc" where
  "record_completed set_id sv =
     (let comp = completed_challenges sv
      in sv\<lparr>sv_completed := Some (Some (if set_id \<in> set comp then comp else comp @ [set_id]))\<rparr>)"

text \<open>Lines 936-940: a correct answer is added to \<^verbatim>\<open>scores["total"]\<close>, then to the category.\<close>

definition score_get :: "(string \<rightharpoonup> int) \<Rightarrow> string \<Rightarrow> int" where
  "score_get m k = (case m k of None \<Rightarrow> 0 | Some v \<Rightarrow> v)"

definition award_points :: "string \<Rightarrow> int \<Rightarrow> save_doc \<Rightarrow> save_doc" where
  "award_points category pts sv =
     (let scores0 = (case sv_scores sv of None \<Rightarrow> Map.empty | Some m \<Rightarrow> m);
          scores1 = scores0(''total'' \<mapsto> score_get scores0 ''total'' + pts);
          scores2 = scores1(category \<mapsto> score_get scores1 category + pts)
      in sv\<lparr>sv_scores := Some scores2\<rparr>)"

text \<open>
  \<^verbatim>\<open>ChallengeScene.handle_input\<close> (lines 895-944). The scene object is mutated in place and a
  \<^verbatim>\<open>SceneResult\<close> returned; the model returns the scene, the application state and the
  result. \<^verbatim>\<open>self.questions[self.qi]\<close> raises \<^verbatim>\<open>IndexError\<close> out of range.
\<close>

definition challenge_handle_input ::
  "'r challenge_scene \<Rightarrow> app \<Rightarrow> input_state \<Rightarrow> event list
     \<Rightarrow> py_error + ('r challenge_scene \<times> app \<times> 'r challenge_result)" where
  "challenge_handle_input sc a st events =
     (if cancel_pressed st then Inr (sc, save_game a, ChReturn (ch_return_scene sc))
      else if ch_questions sc = [] then
        Inr (sc, a, ChResults (ch_return_scene sc) (ch_title sc) (ch_points_earned sc) (ch_max_points sc))
      else if \<not> ch_qi sc < length (ch_questions sc) then Inl IndexError
      else
        let q = ch_questions sc ! ch_qi sc;
            choices = q_choices q
        in if ch_showing_feedback sc then
             (if confirm_pressed st then
                let sc1 = sc\<lparr>ch_showing_feedback := False, ch_selected := 0, ch_qi := ch_qi sc + 1\<rparr>
                in if ch_qi sc1 \<ge> length (ch_questions sc1) then
                     Inr (sc1, save_game (a\<lparr>save := record_completed (ch_challenge_set_id sc1) (save a)\<rparr>),
                          ChResults (ch_return_scene sc1) (ch_title sc1) (ch_points_earned sc1) (ch_max_points sc1))
                   else Inr (sc1, a, ChStay)
              else Inr (sc, a, ChStay))
           else
             let sc1 = sc\<lparr>ch_selected := move_selection (ch_selected sc) events (length choices)\<rparr>
             in if confirm_pressed st then
                  let correct_i = correct_of q;
                      last_correct = (ch_selected sc1 = correct_i);
                      sc2 = sc1\<lparr>ch_last_correct := last_correct,
                                ch_last_expl := (case q_explanation q of None \<Rightarrow> [] | Some e \<Rightarrow> e)\<rparr>;
                      sc3 = (if last_correct
                             then sc2\<lparr>ch_points_earned := ch_points_earned sc2 + points_of q\<rparr>
                             else sc2);
                      a1 = (if last_correct
                            then a\<lparr>save := award_points (ch_category sc) (points_of q) (save a)\<rparr>
                            else a)
                  in Inr (sc3\<lparr>ch_showing_feedback := True\<rparr>, save_game a1, ChStay)
                else Inr (sc1, a, ChStay))"

text \<open>
  The host loop of \<^verbatim>\<open>App.run\<close> restricted to one quiz scene: each frame's input goes to
  \<^verbatim>\<open>handle_input\<close> until the scene asks for a transition. \<open>challenge_answers\<close> reads off
  the same run the selection each question had when its answer was confirmed (the frame
  on which the scene entered feedback).
\<close>

fun challenge_run ::
  "'r challenge_scene \<Rightarrow> app \<Rightarrow> (input_state \<times> event list) list
     \<Rightarrow> py_error + ('r challenge_scene \<times> app \<times> 'r challenge_result)" where
  "challenge_run sc a [] = Inr (sc, a, ChStay)"
| "challenge_run sc a (f # fs) =
     (case challenge_handle_input sc a (fst f) (snd f) of
        Inl e \<Rightarrow> Inl e
      | Inr (sc', a', ChStay) \<Rightarrow> challenge_run sc' a' fs
      | Inr (sc', a', r) \<Rightarrow> Inr (sc', a', r))"

fun challenge_answers ::
  "'r challenge_scene \<Rightarrow> app \<Rightarrow> (input_state \<times> event list) list \<Rightarrow> int list" where
  "challenge_answers sc a [] = []"
| "challenge_answers sc a (f # fs) =
     (case challenge_handle_input sc a (fst f) (snd f) of
        Inl e \<Rightarrow> []
      | Inr (sc', a', r) \<Rightarrow>
          (if \<not> ch_showing_feedback sc \<and> ch_showing_feedback sc' then [ch_selected sc'] else [])
          @ (case r of ChStay \<Rightarrow> challenge_answers sc' a' fs | _ \<Rightarrow> []))"

text \<open>Points of the questions answered correctly, question \<open>i\<close> paired with answer \<open>i\<close>.\<close>

fun graded :: "question list \<Rightarrow> int list \<Rightarrow> int" where
  "graded (q # qs) (s # ss) = (if s = correct_of q then points_of q else 0) + graded qs ss"
| "graded _ _ = 0"

text \<open>\<^verbatim>\<open>save.setdefault("scores", {})\<close> read back: the scores dict, empty when the key is absent.\<close>

definition scores_of :: "save_doc \<Rightarrow> (string \<rightharpoonup> int)" where
  "scores_of sv = (case sv_scores sv of None \<Rightarrow> Map.empty | Some m \<Rightarrow> m)"

text \<open>
  The questions still to be answered: from \<open>ch_qi\<close> on, without the current one once its
  feedback is showing.
\<close>

definition pending :: "'r challenge_scene \<Rightarrow> question list" where
  "pending sc = drop (ch_qi sc + (if ch_showing_feedback sc then 1 else 0)) (ch_questions sc)"

text \<open>
  What \<open>p\<close> awarded points add to \<^verbatim>\<open>scores["total"]\<close> and to the category bucket: both
  assignments hit the same key when the category is itself called \<^verbatim>\<open>total\<close>.
\<close>

definition bonus :: "string \<Rightarrow> int \<Rightarrow> int" where
  "bonus category p = (if category = ''total'' then 2 * p else p)"


section \<open>Dialogue engine: \<^verbatim>\<open>DialogueScene\<close>\<close>

text \<open>
  A dialogue document is a dict of nodes; each node is a dict read with \<^verbatim>\<open>.get\<close>, so every
  field is optional. \<open>n_choices = None\<close> stands for a missing key or a value that is not a
  list, \<open>n_action = None\<close> for a missing key or a value that is not a dict. The display
  fields are kept because \<^verbatim>\<open>if not node\<close> asks whether the dict has any key at all.
\<close>

record choice =
  c_label :: "string option"
  c_trust_delta :: "int option"
  c_next :: "string option"

record action =
  act_type :: "string option"
  act_challenge_set :: "string option"

record node =
  n_speaker :: "string option"
  n_text :: "string option"
  n_portrait :: "string option"
  n_choices :: "choice list option"
  n_next :: "string option"
  n_action :: "action option"

definition empty_node :: node where
  "empty_node = \<lparr> n_speaker = None, n_text = None, n_portrait = None, n_choices = None,
                   n_next = None, n_action = None \<rparr>"

record 'r dialogue_scene =
  dl_return_scene :: 'r
  dl_npc_id :: string
  dl_nodes :: "string \<rightharpoonup> node"
  dl_node_id :: string
  dl_selected_choice :: int

datatype 'r dialogue_result =
    DlStay
  | DlReturn 'r
  | DlChallenge 'r string

text \<open>Python truthiness of an optional string: present and not empty (\<^verbatim>\<open>if nxt:\<close>).\<close>

definition truthy :: "string option \<Rightarrow> bool" where
  "truthy s = (case s of None \<Rightarrow> False | Some v \<Rightarrow> v \<noteq> [])"

text \<open>
  Lines 740-742: \<^verbatim>\<open>trust = save.setdefault("trust", {})\<close>,
  \<^verbatim>\<open>trust[npc_id] = int(trust.get(npc_id, 0)) + trust_delta\<close>.
\<close>

definition trust_of :: "save_doc \<Rightarrow> (string \<rightharpoonup> int)" where
  "trust_of sv = (case sv_trust sv of None \<Rightarrow> Map.empty | Some m \<Rightarrow> m)"

definition trust_get :: "save_doc \<Rightarrow> string \<Rightarrow> int" where
  "trust_get sv npc = (case trust_of sv npc of None \<Rightarrow> 0 | Some v \<Rightarrow> v)"

definition apply_trust :: "string \<Rightarrow> int \<Rightarrow> save_doc \<Rightarrow> save_doc" where
  "apply_trust npc trust_delta sv =
     sv\<lparr>sv_trust := Some ((trust_of sv)(npc \<mapsto> trust_get sv npc + trust_delta))\<rparr>"

definition trust_delta_of :: "choice \<Rightarrow> int" where
  "trust_delta_of c = (case c_trust_delta c of None \<Rightarrow> 0 | Some d \<Rightarrow> d)"

text \<open>
  Lines 760-771, reached whenever no earlier branch returned: the node's
  \<^verbatim>\<open>start_challenge\<close> action, then the empty-node exit, then staying in the dialogue.
\<close>

definition starts_challenge :: "node \<Rightarrow> string option" where
  "starts_challenge nd =
     (case n_action nd of
        None \<Rightarrow> None
      | Some act \<Rightarrow>
          if act_type act = Some ''start_challenge'' then
            (let ch_set = (case act_challenge_set act of None \<Rightarrow> [] | Some s \<Rightarrow> s)
             in if ch_set \<noteq> [] then Some ch_set else None)
          else None)"

definition dialogue_tail ::
  "'r dialogue_scene \<Rightarrow> app \<Rightarrow> node \<Rightarrow> 'r dialogue_scene \<times> app \<times> 'r dialogue_result" where
  "dialogue_tail sc a nd =
     (case starts_challenge nd of
        Some ch_set \<Rightarrow> (sc, save_game a, DlChallenge (dl_return_scene sc) ch_set)
      | None \<Rightarrow>
          if nd = empty_node then (sc, save_game a, DlReturn (dl_return_scene sc))
          else (sc, a, DlStay))"

text \<open>
  \<^verbatim>\<open>DialogueScene.handle_input\<close> (lines 717-771). \<^verbatim>\<open>choices[self.selected_choice]\<close> is read
  after the selection has been clamped into \<open>[0, len - 1]\<close> of a non-empty list.
\<close>

definition dialogue_handle_input ::
  "'r dialogue_scene \<Rightarrow> app \<Rightarrow> input_state \<Rightarrow> event list
     \<Rightarrow> 'r dialogue_scene \<times> app \<times> 'r dialogue_result" where
  "dialogue_handle_input sc a st events =
     (if cancel_pressed st then (sc, save_game a, DlReturn (dl_return_scene sc))
      else
        let nd = (case dl_nodes sc (dl_node_id sc) of None \<Rightarrow> empty_node | Some n \<Rightarrow> n)
        in case n_choices nd of
             Some (c # cs) \<Rightarrow>
               (let choices = c # cs;
                    sc1 = sc\<lparr>dl_selected_choice :=
                              move_selection (dl_selected_choice sc) events (length choices)\<rparr>
                in if confirm_pressed st then
                     let ch = choices ! nat (dl_selected_choice sc1);
                         a1 = a\<lparr>save := apply_trust (dl_npc_id sc1) (trust_delta_of ch) (save a)\<rparr>;
                         nxt = c_next ch
                     in if truthy nxt
                        then (sc1\<lparr>dl_node_id := the nxt, dl_selected_choice := 0\<rparr>, a1, DlStay)
                        else dialogue_tail sc1 a1 nd
                   else dialogue_tail sc1 a nd)
           | _ \<Rightarrow>
               (if confirm_pressed st \<and> truthy (n_next nd)
                then (sc\<lparr>dl_node_id := the (n_next nd)\<rparr>, a, DlStay)
                else dialogue_tail sc a nd))"

text \<open>
  Whether this frame's confirm moves the dialogue to another node: the two
  \<^verbatim>\<open>return SceneResult()\<close> of lines 745-748 and 753-757, which leave \<^verbatim>\<open>handle_input\<close> before
  the node's action is looked at.
\<close>

definition confirm_advances :: "'r dialogue_scene \<Rightarrow> input_state \<Rightarrow> event list \<Rightarrow> bool" where
  "confirm_advances sc st events =
     (confirm_pressed st \<and>
      (let nd = (case dl_nodes sc (dl_node_id sc) of None \<Rightarrow> empty_node | Some n \<Rightarrow> n)
       in case n_choices nd of
            Some (c # cs) \<Rightarrow>
              truthy (c_next ((c # cs) !
                nat (move_selection (dl_selected_choice sc) events (length (c # cs)))))
          | _ \<Rightarrow> truthy (n_next nd)))"

section \<open>World controller: \<^verbatim>\<open>WorldScene\<close>\<close>

text \<open>
  \<^verbatim>\<open>pygame.Rect\<close>: integer position and size. \<^verbatim>\<open>right\<close> and \<^verbatim>\<open>bottom\<close> are computed from them;
  assigning \<^verbatim>\<open>right\<close>, \<^verbatim>\<open>left\<close>, \<^verbatim>\<open>bottom\<close> or \<^verbatim>\<open>top\<close> moves the rectangle and keeps its size;
  \<^verbatim>\<open>centerx\<close> is \<open>x + w / 2\<close> with C's truncating division. \<^verbatim>\<open>colliderect\<close> follows pygame 2:
  a rectangle of zero width or height collides with nothing, the edges are compared
  strictly, and negative sizes are normalised by \<open>min\<close>/\<open>max\<close>.
\<close>

record rect =
  r_x :: int
  r_y :: int
  r_w :: int
  r_h :: int

definition r_right :: "rect \<Rightarrow> int" where
  "r_right r = r_x r + r_w r"

definition r_bottom :: "rect \<Rightarrow> int" where
  "r_bottom r = r_y r + r_h r"




definition colliderect :: "rect \<Rightarrow> rect \<Rightarrow> bool" where
  "colliderect a b =
     (if r_w a = 0 \<or> r_h a = 0 \<or> r_w b = 0 \<or> r_h b = 0 then False
      else min (r_x a) (r_x a + r_w a) < max (r_x b) (r_x b + r_w b)
         \<and> min (r_y a) (r_y a + r_h a) < max (r_y b) (r_y b + r_h b)
         \<and> max (r_x a) (r_x a + r_w a) > min (r_x b) (r_x b + r_w b)
         \<and> max (r_y a) (r_y a + r_h a) > min (r_y b) (r_y b + r_h b))"

text \<open>
  \<^verbatim>\<open>clamp\<close> and \<^verbatim>\<open>dist_sq\<close> of \<^verbatim>\<open>scenes.py\<close>. Python floats are modelled as reals;
  \<^verbatim>\<open>dist_sq\<close> is only ever called on the integer centres of rectangles. \<open>py_int\<close> is
  Python's \<^verbatim>\<open>int()\<close> on a float: truncation toward zero.
\<close>

definition clamp :: "real \<Rightarrow> real \<Rightarrow> real \<Rightarrow> real" where
  "clamp v lo hi = (if v < lo then lo else if v > hi then hi else v)"


definition py_int :: "real \<Rightarrow> int" where
  "py_int v = (if 0 \<le> v then \<lfloor>v\<rfloor> else \<lceil>v\<rceil>)"

text \<open>
  The constants imported from \<^verbatim>\<open>constants.py\<close>, a file outside the sources at hand: they
  are parameters of the model.
\<close>

record game_constants =
  PLAYER_W :: int
  PLAYER_H :: int
  PLAYER_SPEED :: real

text \<open>
  The map of a World scene as the scene reads it through \<^verbatim>\<open>_world_bounds\<close>,
  \<^verbatim>\<open>_colliders\<close>, \<^verbatim>\<open>_npcs\<close>, \<^verbatim>\<open>_portals\<close> and \<^verbatim>\<open>_books\<close>, whichever of \<^verbatim>\<open>TiledMap\<close> and
  \<^verbatim>\<open>GeneratedMap\<close> provides it. A property that is read with \<^verbatim>\<open>float(...)\<close> is either a value
  \<^verbatim>\<open>float\<close> accepts, given by its float value, or one it raises on.
\<close>

datatype pvalue = PNum real | PBad

record npc =
  np_id :: string
  np_dialogue :: "string option"
  np_rect :: rect

record portal =
  pt_rect :: rect
  pt_target_map :: "string option"
  pt_target_x :: "pvalue option"
  pt_target_y :: "pvalue option"
  pt_target_zoom :: "pvalue option"
  pt_prompt :: "string option"

record book =
  bk_rect :: rect
  bk_title :: "string option"
  bk_text :: "string option"
  bk_prompt :: "string option"

record geometry =
  g_pixel_w :: int
  g_pixel_h :: int
  g_default_zoom :: real
  g_colliders :: "rect list"
  g_npcs :: "npc list"
  g_portals :: "portal list"
  g_books :: "book list"

definition world_bounds_rect :: "geometry \<Rightarrow> rect" where
  "world_bounds_rect g = \<lparr> r_x = 0, r_y = 0, r_w = g_pixel_w g, r_h = g_pixel_h g \<rparr>"

record world_scene =
  w_map_id :: string
  w_geo :: geometry
  w_player :: rect
  w_zoom :: real
  w_near_npc_label :: "string option"
  w_near_portal_label :: "string option"
  w_near_book_label :: "string option"


subsection \<open>Movement and collision\<close>

text \<open>
  \<^verbatim>\<open>_move_and_collide\<close> (lines 495-515): the body of the collider loop, the loop, and the
  whole step with its early return, integer move and clamp to the world bounds.
\<close>

definition push_back :: "real \<Rightarrow> real \<Rightarrow> rect \<Rightarrow> rect \<Rightarrow> rect" where
  "push_back dx dy p c =
     (let p1 = (if dx > 0 then p\<lparr>r_x := r_x c - r_w p\<rparr>
                else if dx < 0 then p\<lparr>r_x := r_right c\<rparr>
                else p)
      in if dy > 0 then p1\<lparr>r_y := r_y c - r_h p1\<rparr>
         else if dy < 0 then p1\<lparr>r_y := r_bottom c\<rparr>
         else p1)"

fun collide :: "real \<Rightarrow> real \<Rightarrow> rect \<Rightarrow> rect list \<Rightarrow> rect" where
  "collide dx dy p [] = p"
| "collide dx dy p (c # cs) =
     collide dx dy (if colliderect p c then push_back dx dy p c else p) cs"

definition clamp_to_bounds :: "rect \<Rightarrow> rect \<Rightarrow> rect" where
  "clamp_to_bounds bounds p =
     (let p1 = p\<lparr>r_x := py_int (clamp (real_of_int (r_x p)) 0 (real_of_int (r_w bounds - r_w p)))\<rparr>
      in p1\<lparr>r_y := py_int (clamp (real_of_int (r_y p1)) 0 (real_of_int (r_h bounds - r_h p1)))\<rparr>)"

definition move_and_collide :: "geometry \<Rightarrow> rect \<Rightarrow> real \<Rightarrow> real \<Rightarrow> rect" where
  "move_and_collide g p dx dy =
     (if dx = 0 \<and> dy = 0 then p
      else
        let p1 = p\<lparr>r_x := r_x p + py_int dx\<rparr>;
            p2 = p1\<lparr>r_y := r_y p1 + py_int dy\<rparr>
        in collide dx dy (clamp_to_bounds (world_bounds_rect g) p2) (g_colliders g))"

text \<open>
  \<^verbatim>\<open>WorldScene.update\<close> (lines 449-493): the direction from the held flags, normalised by
  \<open>1 / sqrt 2\<close> when both axes are active, the displacement \<open>(dx, dy)\<close>, the two per-axis
  steps, and the position written to the save document. The camera it also recomputes
  is not part of the model.
\<close>

definition velocity :: "input_state \<Rightarrow> real \<times> real" where
  "velocity st =
     (let vx = (if left st then 0 - 1 else 0) + (if right st then 1 else 0);
          vy = (if up st then 0 - 1 else 0) + (if down st then 1 else 0)
      in if vx \<noteq> 0 \<and> vy \<noteq> 0 then (vx * (1 / sqrt 2), vy * (1 / sqrt 2)) else (vx, vy))"

definition displacement :: "game_constants \<Rightarrow> input_state \<Rightarrow> real \<Rightarrow> real \<times> real" where
  "displacement c st dt =
     (fst (velocity st) * PLAYER_SPEED c * dt, snd (velocity st) * PLAYER_SPEED c * dt)"

definition integrate :: "game_constants \<Rightarrow> geometry \<Rightarrow> rect \<Rightarrow> input_state \<Rightarrow> real \<Rightarrow> rect" where
  "integrate c g p st dt =
     (let dx = fst (displacement c st dt);
          dy = snd (displacement c st dt);
          p1 = move_and_collide g p dx 0
      in move_and_collide g p1 0 dy)"

definition world_update ::
  "game_constants \<Rightarrow> world_scene \<Rightarrow> app \<Rightarrow> input_state \<Rightarrow> real \<Rightarrow> world_scene \<times> app" where
  "world_update c sc a st dt =
     (let sc1 = sc\<lparr>w_player := integrate c (w_geo sc) (w_player sc) st dt\<rparr>;
          sv = (save a)\<lparr>sv_world_map := Some (w_map_id sc1),
                         sv_player_x := real_of_int (r_x (w_player sc1)),
                         sv_player_y := real_of_int (r_y (w_player sc1))\<rparr>
      in (sc1, a\<lparr>save := sv\<rparr>))"

text \<open>
  The two properties of the player rectangle that C1 is about: it lies within the world
  bounds rectangle, and it overlaps no collider. \<open>solid\<close> is a rectangle of positive size.
\<close>

definition in_bounds :: "rect \<Rightarrow> rect \<Rightarrow> bool" where
  "in_bounds bounds p =
     (r_x bounds \<le> r_x p \<and> r_y bounds \<le> r_y p
      \<and> r_right p \<le> r_right bounds \<and> r_bottom p \<le> r_bottom bounds)"

definition clear_of :: "rect list \<Rightarrow> rect \<Rightarrow> bool" where
  "clear_of cs p = list_all (\<lambda>c. \<not> colliderect p c) cs"

definition solid :: "rect \<Rightarrow> bool" where
  "solid r = (0 < r_w r \<and> 0 < r_h r)"

subsection \<open>Interaction resolver\<close>
















subsection \<open>Input handling of the World scene\<close>






section \<open>Save system: \<^verbatim>\<open>load_save\<close>\<close>

text \<open>
  What \<^verbatim>\<open>json.load\<close> returns. An object is the list of its members in order; its keys are
  distinct, as those of the dict are.
\<close>

datatype json =
    JNull
  | JBool bool
  | JNum real
  | JStr string
  | JArr "json list"
  | JObj "(string \<times> json) list"

text \<open>
  The dict \<^verbatim>\<open>base\<close> that \<^verbatim>\<open>load_save\<close> builds, in insertion order. Its keys are strings as
  long as it is updated from a dict; \<^verbatim>\<open>dict.update\<close> on a list of pairs can add any hashable
  key, so keys are JSON values (\<^verbatim>\<open>True\<close> and \<^verbatim>\<open>False\<close> being the keys 1 and 0).
\<close>

type_synonym pydict = "(json \<times> json) list"

fun dict_set :: "pydict \<Rightarrow> json \<Rightarrow> json \<Rightarrow> pydict" where
  "dict_set [] k v = [(k, v)]"
| "dict_set ((k', v') # rest) k v =
     (if k' = k then (k, v) # rest else (k', v') # dict_set rest k v)"

definition dict_get :: "pydict \<Rightarrow> json \<Rightarrow> json option" where
  "dict_get d k = map_of d k"

fun obj_set :: "(string \<times> json) list \<Rightarrow> string \<Rightarrow> json \<Rightarrow> (string \<times> json) list" where
  "obj_set [] k v = [(k, v)]"
| "obj_set ((k', v') # rest) k v =
     (if k' = k then (k, v) # rest else (k', v') # obj_set rest k v)"

fun is_dict :: "json option \<Rightarrow> bool" where
  "is_dict (Some (JObj kvs)) = True"
| "is_dict _ = False"

fun is_list :: "json option \<Rightarrow> bool" where
  "is_list (Some (JArr xs)) = True"
| "is_list _ = False"

text \<open>\<^verbatim>\<open>key in base[name]\<close> for a value already known to be a dict.\<close>

fun has_key :: "json option \<Rightarrow> string \<Rightarrow> bool" where
  "has_key (Some (JObj kvs)) k = (k \<in> fst ` set kvs)"
| "has_key _ k = False"

fun sub_get :: "json option \<Rightarrow> string \<Rightarrow> json option" where
  "sub_get (Some (JObj kvs)) k = map_of kvs k"
| "sub_get _ k = None"

fun sub_set :: "json option \<Rightarrow> string \<Rightarrow> json \<Rightarrow> json" where
  "sub_set (Some (JObj kvs)) k v = JObj (obj_set kvs k v)"
| "sub_set _ k v = JObj [(k, v)]"

text \<open>\<^verbatim>\<open>default_save()\<close> of \<^verbatim>\<open>save_system.py\<close>.\<close>

definition default_scores :: json where
  "default_scores = JObj [(''total'', JNum 0), (''phishing'', JNum 0), (''password'', JNum 0),
                          (''links'', JNum 0), (''mfa'', JNum 0)]"

definition default_completed :: json where
  "default_completed = JObj [(''challenges'', JArr [])]"

definition default_save :: pydict where
  "default_save =
     [(JStr ''world'', JObj [(''map'', JStr ''city'')]),
      (JStr ''player'', JObj [(''x'', JNum 200), (''y'', JNum 200)]),
      (JStr ''trust'', JObj []),
      (JStr ''scores'', default_scores),
      (JStr ''completed'', default_completed)]"

text \<open>
  \<^verbatim>\<open>base.update(data)\<close>. A dict is merged key by key. Any other value is iterated as a
  sequence of key/value pairs: a number, a boolean or \<^verbatim>\<open>None\<close> is not iterable
  (\<^verbatim>\<open>TypeError\<close>); the elements of a non-empty string are one-character strings, not pairs
  (\<^verbatim>\<open>ValueError\<close>); each element of a list must itself be a sequence of length two (a
  two-element list with a hashable first element, a two-character string, or a dict with
  two keys), otherwise \<^verbatim>\<open>TypeError\<close> or \<^verbatim>\<open>ValueError\<close>.
\<close>

fun hash_key :: "json \<Rightarrow> json option" where
  "hash_key (JBool b) = Some (JNum (if b then 1 else 0))"
| "hash_key (JArr xs) = None"
| "hash_key (JObj kvs) = None"
| "hash_key k = Some k"

fun update_pair :: "json \<Rightarrow> py_error + (json \<times> json)" where
  "update_pair (JArr [k, v]) = (case hash_key k of None \<Rightarrow> Inl TypeError | Some k' \<Rightarrow> Inr (k', v))"
| "update_pair (JArr xs) = Inl ValueError"
| "update_pair (JStr [a, b]) = Inr (JStr [a], JStr [b])"
| "update_pair (JStr s) = Inl ValueError"
| "update_pair (JObj [(k1, v1), (k2, v2)]) = Inr (JStr k1, JStr k2)"
| "update_pair (JObj kvs) = Inl ValueError"
| "update_pair _ = Inl TypeError"

fun update_pairs :: "pydict \<Rightarrow> json list \<Rightarrow> py_error + pydict" where
  "update_pairs base [] = Inr base"
| "update_pairs base (e # es) =
     (case update_pair e of
        Inl err \<Rightarrow> Inl err
      | Inr (k, v) \<Rightarrow> update_pairs (dict_set base k v) es)"

fun dict_update :: "pydict \<Rightarrow> json \<Rightarrow> py_error + pydict" where
  "dict_update base (JObj kvs) = Inr (foldl (\<lambda>b (k, v). dict_set b (JStr k) v) base kvs)"
| "dict_update base (JArr xs) = update_pairs base xs"
| "dict_update base (JStr s) = (if s = [] then Inr base else Inl ValueError)"
| "dict_update base _ = Inl TypeError"

text \<open>
  The save file as \<^verbatim>\<open>load_save\<close> meets it: absent, present but failing in \<^verbatim>\<open>open\<close> or
  \<^verbatim>\<open>json.load\<close> (the exception is caught), or parsed to a JSON value.
\<close>

datatype save_file = Absent | Unparsable | Content json

text \<open>The "light normalization" of lines 40-64, one definition per \<^verbatim>\<open>if\<close>.\<close>

definition norm_world :: "pydict \<Rightarrow> pydict" where
  "norm_world base =
     (let b1 = (if \<not> is_dict (dict_get base (JStr ''world''))
                then dict_set base (JStr ''world'') (JObj [(''map'', JStr ''city'')]) else base)
      in if \<not> has_key (dict_get b1 (JStr ''world'')) ''map''
         then dict_set b1 (JStr ''world'')
                (sub_set (dict_get b1 (JStr ''world'')) ''map'' (JStr ''city''))
         else b1)"

definition norm_key :: "string \<Rightarrow> json \<Rightarrow> pydict \<Rightarrow> pydict" where
  "norm_key name dflt base =
     (if \<not> is_dict (dict_get base (JStr name)) then dict_set base (JStr name) dflt else base)"

definition norm_challenges :: "pydict \<Rightarrow> pydict" where
  "norm_challenges base =
     (let comp = dict_get base (JStr ''completed'')
      in if \<not> has_key comp ''challenges'' \<or> \<not> is_list (sub_get comp ''challenges'')
         then dict_set base (JStr ''completed'') (sub_set comp ''challenges'' (JArr []))
         else base)"

definition load_save :: "save_file \<Rightarrow> py_error + pydict" where
  "load_save f =
     (case f of
        Absent \<Rightarrow> Inr default_save
      | Unparsable \<Rightarrow> Inr default_save
      | Content data \<Rightarrow>
          (case dict_update default_save data of
             Inl err \<Rightarrow> Inl err
           | Inr base \<Rightarrow>
               Inr (norm_challenges
                     (norm_key ''completed'' default_completed
                       (norm_key ''scores'' default_scores
                         (norm_key ''trust'' (JObj [])
                           (norm_key ''player'' (JObj [(''x'', JNum 200), (''y'', JNum 200)])
                             (norm_world base))))))))"

section \<open>Concrete scenarios\<close>

subsection \<open>A quiz set of two questions\<close>

definition quiz0 :: quiz_doc where
  "quiz0 = \<lparr> qd_title = Some ''Phishing 1'', qd_category = Some ''phishing'',
      qd_questions = Some
        [\<lparr> q_choices = [''a'', ''b'', ''c''], q_correct_index = Some 1, q_points = Some 100,
            q_explanation = Some ''because'' \<rparr>,
         \<lparr> q_choices = [''x'', ''y''], q_correct_index = None, q_points = None,
            q_explanation = None \<rparr>] \<rparr>"

definition st_confirm :: input_state where
  "st_confirm = \<lparr> up = False, down = False, left = False, right = False,
      interact_pressed = False, confirm_pressed = True, cancel_pressed = False \<rparr>"

definition save0 :: save_doc where
  "save0 = \<lparr> sv_world_map = Some ''city'', sv_player_x = 200, sv_player_y = 200,
      sv_trust = Some Map.empty, sv_scores = Some [''total'' \<mapsto> 0, ''phishing'' \<mapsto> 0],
      sv_completed = Some (Some []) \<rparr>"

definition frames0 :: "(input_state \<times> event list) list" where
  "frames0 = [(st_confirm, [KEYDOWN_K_DOWN]), (st_confirm, []),
              (st_confirm, [KEYDOWN_K_DOWN]), (st_confirm, [])]"



subsection \<open>A dialogue with a choice node and a quiz node\<close>

definition node_choices0 :: node where
  "node_choices0 = \<lparr> n_speaker = Some ''Aya'', n_text = Some ''Is this mail safe?'',
      n_portrait = None,
      n_choices = Some [\<lparr> c_label = Some ''Click it'', c_trust_delta = Some (- 2), c_next = Some ''bad'' \<rparr>,
                        \<lparr> c_label = Some ''Report it'', c_trust_delta = Some 3, c_next = None \<rparr>],
      n_next = None, n_action = None \<rparr>"

definition node_next_action0 :: node where
  "node_next_action0 = \<lparr> n_speaker = Some ''Aya'', n_text = Some ''Ready?'', n_portrait = None,
      n_choices = None, n_next = Some ''after'',
      n_action = Some \<lparr> act_type = Some ''start_challenge'',
                        act_challenge_set = Some ''phishing_1'' \<rparr> \<rparr>"

definition dialogue0 :: "string dialogue_scene" where
  "dialogue0 = \<lparr> dl_return_scene = ''world'', dl_npc_id = ''aya'',
      dl_nodes = [''intro'' \<mapsto> node_choices0, ''quiz'' \<mapsto> node_next_action0],
      dl_node_id = ''intro'', dl_selected_choice = 0 \<rparr>"

definition app0 :: app where
  "app0 = \<lparr>save = save0, disk = None\<rparr>"

definition st_idle :: input_state where
  "st_idle = \<lparr> up = False, down = False, left = False, right = False,
      interact_pressed = False, confirm_pressed = False, cancel_pressed = False \<rparr>"

subsection \<open>Maps and players\<close>

definition consts0 :: game_constants where
  "consts0 = \<lparr> PLAYER_W = 18, PLAYER_H = 22, PLAYER_SPEED = 180 \<rparr>"

definition geo_walls :: geometry where
  "geo_walls = \<lparr> g_pixel_w = 200, g_pixel_h = 200, g_default_zoom = 1,
      g_colliders = [\<lparr> r_x = 30, r_y = 0, r_w = 10, r_h = 100 \<rparr>,
                     \<lparr> r_x = 50, r_y = 0, r_w = 10, r_h = 100 \<rparr>],
      g_npcs = [], g_portals = [], g_books = [] \<rparr>"

definition scene_walls :: "int \<Rightarrow> int \<Rightarrow> world_scene" where
  "scene_walls x y = \<lparr> w_map_id = ''walls'', w_geo = geo_walls,
      w_player = \<lparr> r_x = x, r_y = y, r_w = 18, r_h = 22 \<rparr>, w_zoom = 1,
      w_near_npc_label = None, w_near_portal_label = None, w_near_book_label = None \<rparr>"

definition st_right :: input_state where
  "st_right = st_idle\<lparr>right := True\<rparr>"










section \<open>Quiz engine: scoring and completion\<close>









lemma award_points_total:
  "score_get (scores_of (award_points c pts sv)) ''total'' =
     score_get (scores_of sv) ''total'' + bonus c pts"
  by (simp add: award_points_def scores_of_def score_get_def bonus_def Let_def)

lemma award_points_category:
  "score_get (scores_of (award_points c pts sv)) c =
     score_get (scores_of sv) c + bonus c pts"
  by (simp add: award_points_def scores_of_def score_get_def bonus_def Let_def)

lemma step_results:
  assumes "challenge_handle_input sc a st events = Inr (sc', a', ChResults r t p m)"
    and "ch_questions sc \<noteq> []"
  shows "pending sc = [] \<and> p = ch_points_earned sc \<and> m = ch_max_points sc
         \<and> scores_of (save a') = scores_of (save a)
         \<and> \<not> (\<not> ch_showing_feedback sc \<and> ch_showing_feedback sc')"
  using assms
  by (auto simp: challenge_handle_input_def Let_def pending_def save_game_def scores_of_def
      record_completed_def split: if_splits)

lemma step_stay:
  assumes "challenge_handle_input sc a st events = Inr (sc', a', ChStay)"
    and "ch_questions sc \<noteq> []"
  shows "ch_questions sc' = ch_questions sc \<and> ch_max_points sc' = ch_max_points sc
         \<and> ch_category sc' = ch_category sc
         \<and> ch_qi sc' < length (ch_questions sc')
         \<and> (if \<not> ch_showing_feedback sc \<and> ch_showing_feedback sc'
             then pending sc = (ch_questions sc ! ch_qi sc) # pending sc'
               \<and> (let d = (if ch_selected sc' = correct_of (ch_questions sc ! ch_qi sc)
                           then points_of (ch_questions sc ! ch_qi sc) else 0)
                  in ch_points_earned sc' = ch_points_earned sc + d
                   \<and> score_get (scores_of (save a')) ''total'' =
                       score_get (scores_of (save a)) ''total'' + bonus (ch_category sc) d
                   \<and> score_get (scores_of (save a')) (ch_category sc) =
                       score_get (scores_of (save a)) (ch_category sc) + bonus (ch_category sc) d)
             else pending sc' = pending sc \<and> ch_points_earned sc' = ch_points_earned sc
               \<and> save a' = save a)"
  using assms
  by (auto simp: challenge_handle_input_def Let_def pending_def save_game_def
      award_points_total award_points_category bonus_def Cons_nth_drop_Suc split: if_splits)

lemma run_invariant:
  assumes "challenge_run sc a fs = Inr (sc', a', ChResults r t p m)"
    and "ch_questions sc \<noteq> []"
  shows "length (challenge_answers sc a fs) = length (pending sc)
       \<and> p = ch_points_earned sc + graded (pending sc) (challenge_answers sc a fs)
       \<and> m = ch_max_points sc
       \<and> score_get (scores_of (save a')) ''total'' =
           score_get (scores_of (save a)) ''total''
             + bonus (ch_category sc) (graded (pending sc) (challenge_answers sc a fs))
       \<and> score_get (scores_of (save a')) (ch_category sc) =
           score_get (scores_of (save a)) (ch_category sc)
             + bonus (ch_category sc) (graded (pending sc) (challenge_answers sc a fs))"
  using assms
proof (induction fs arbitrary: sc a)
  case Nil
  then show ?case by simp
next
  case (Cons f fs)
  obtain sc1 a1 r1 where step: "challenge_handle_input sc a (fst f) (snd f) = Inr (sc1, a1, r1)"
    using Cons.prems(1) by (auto split: sum.splits)
  show ?case
  proof (cases r1)
    case ChStay
    with step Cons.prems have run1: "challenge_run sc1 a1 fs = Inr (sc', a', ChResults r t p m)"
      by simp
    note st = step_stay[OF step[unfolded ChStay] Cons.prems(2)]
    from st Cons.prems(2) have ne1: "ch_questions sc1 \<noteq> []" by simp
    note ih = Cons.IH[OF run1 ne1]
    have ans: "challenge_answers sc a (f # fs) =
        (if \<not> ch_showing_feedback sc \<and> ch_showing_feedback sc1 then [ch_selected sc1] else [])
        @ challenge_answers sc1 a1 fs"
      using step ChStay by simp
    show ?thesis
    proof (cases "\<not> ch_showing_feedback sc \<and> ch_showing_feedback sc1")
      case True
      with st ih ans show ?thesis
        by (simp add: Let_def bonus_def split: if_splits)
    next
      case False
      with st ih ans show ?thesis
        by (simp add: scores_of_def)
    qed
  next
    case (ChReturn x)
    with step Cons.prems show ?thesis by simp
  next
    case (ChResults r' t' p' m')
    with step Cons.prems have eq: "sc1 = sc'" "a1 = a'" "r' = r" "t' = t" "p' = p" "m' = m"
      by simp_all
    note sr = step_results[OF step[unfolded ChResults eq] Cons.prems(2)]
    have ans: "challenge_answers sc a (f # fs) = []"
      using step ChResults sr eq by simp
    from sr ans show ?thesis by (simp add: bonus_def)
  qed
qed

lemma foldl_points: "foldl (\<lambda>acc q. acc + points_of q) z qs = z + sum_list (map points_of qs)"
  by (induction qs arbitrary: z) simp_all

text \<open>
  C2: for a quiz set with a non-empty question list, whenever a run of the scene ends in
  the Results scene, every question has received exactly one answer, the points passed
  are the sum of the \<open>points\<close> of the questions whose selection at confirm time equalled
  \<open>correct_index\<close>, the maximum passed is the sum of all \<open>points\<close>, and the same points
  have been added to \<^verbatim>\<open>scores["total"]\<close> and to the category bucket (once each; twice to
  the one key when the category is named \<^verbatim>\<open>total\<close>).
\<close>

theorem quiz_scoring:
  assumes "challenge_run (challenge_init ret set_id d) a fs = Inr (sc', a', ChResults r t p m)"
    and "qd_questions d = Some qs" and "qs \<noteq> []"
  shows "length (challenge_answers (challenge_init ret set_id d) a fs) = length qs
       \<and> p = graded qs (challenge_answers (challenge_init ret set_id d) a fs)
       \<and> m = sum_list (map points_of qs)
       \<and> score_get (scores_of (save a')) ''total'' =
           score_get (scores_of (save a)) ''total''
             + bonus (ch_category (challenge_init ret set_id d)) p
       \<and> score_get (scores_of (save a')) (ch_category (challenge_init ret set_id d)) =
           score_get (scores_of (save a)) (ch_category (challenge_init ret set_id d))
             + bonus (ch_category (challenge_init ret set_id d)) p"
proof -
  let ?sc = "challenge_init ret set_id d"
  have q: "ch_questions ?sc = qs" and pe: "ch_points_earned ?sc = 0"
    and mx: "ch_max_points ?sc = sum_list (map points_of qs)"
    and pd: "pending ?sc = qs"
    using assms(2) by (simp_all add: challenge_init_def pending_def foldl_points)
  from assms(3) q have ne: "ch_questions ?sc \<noteq> []" by simp
  from run_invariant[OF assms(1) ne] show ?thesis
    by (simp add: pe mx pd)
qed

lemma run0:
  "\<exists>sc' a'. challenge_run (challenge_init () ''phishing_1'' quiz0) \<lparr>save = save0, disk = None\<rparr> frames0
      = Inr (sc', a', ChResults () ''Phishing 1'' 100 200)"
  by (simp add: challenge_init_def quiz0_def frames0_def st_confirm_def save0_def
      challenge_handle_input_def Let_def move_selection_def clamp_selection_def
      correct_of_def points_of_def save_game_def award_points_def record_completed_def
      completed_challenges_def score_get_def)

theorem quiz_scoring_witness:
  "(\<exists>sc' a'. challenge_run (challenge_init () ''phishing_1'' quiz0) \<lparr>save = save0, disk = None\<rparr> frames0
      = Inr (sc', a', ChResults () ''Phishing 1'' 100 200))
   \<and> graded (the (qd_questions quiz0))
        (challenge_answers (challenge_init () ''phishing_1'' quiz0) \<lparr>save = save0, disk = None\<rparr> frames0) = 100
   \<and> sum_list (map points_of (the (qd_questions quiz0))) = 200"
proof -
  obtain sc' a' where run:
    "challenge_run (challenge_init () ''phishing_1'' quiz0) \<lparr>save = save0, disk = None\<rparr> frames0
      = Inr (sc', a', ChResults () ''Phishing 1'' 100 200)"
    using run0 by blast
  have qs: "qd_questions quiz0 = Some (the (qd_questions quiz0))" "the (qd_questions quiz0) \<noteq> []"
    by (simp_all add: quiz0_def)
  from quiz_scoring[OF run qs] run show ?thesis by auto
qed

section \<open>Dialogue engine: choices, missing nodes, quiz hand-off\<close>

lemma clamp_selection_range:
  "0 < n \<Longrightarrow> 0 \<le> clamp_selection s n \<and> clamp_selection s n < int n"
  by (simp add: clamp_selection_def Let_def)

lemma trust_get_apply_trust:
  "trust_get (apply_trust npc d sv) k = (if k = npc then trust_get sv npc + d else trust_get sv k)"
  by (simp add: apply_trust_def trust_get_def trust_of_def)

lemma dialogue_tail_scene: "fst (dialogue_tail sc a nd) = sc"
  by (simp add: dialogue_tail_def split: option.splits)

lemma dialogue_tail_save: "save (fst (snd (dialogue_tail sc a nd))) = save a"
  by (simp add: dialogue_tail_def save_game_def split: option.splits)

lemma dialogue_tail_stay:
  "starts_challenge nd = None \<Longrightarrow> nd \<noteq> empty_node \<Longrightarrow> snd (snd (dialogue_tail sc a nd)) = DlStay"
  by (simp add: dialogue_tail_def)

text \<open>
  C4: on a node with a non-empty choices list, a confirm (without cancel) with the
  selection at index \<open>i\<close> adds \<open>choices[i].trust_delta\<close> once to \<open>trust[npc_id]\<close>, a
  missing entry counting as 0, and changes no other NPC's trust; if the choice carries a
  next-node id the current node becomes that id and the selection is reset to 0; if it
  carries none the current node and the selection stay as they are (and the scene stays
  in the dialogue unless the node itself declares a quiz action).
\<close>

theorem choice_confirm_applies_trust:
  assumes "\<not> cancel_pressed st" and "confirm_pressed st"
    and "dl_nodes sc (dl_node_id sc) = Some nd" and "n_choices nd = Some choices"
    and "choices \<noteq> []"
    and "i = move_selection (dl_selected_choice sc) events (length choices)"
    and "dialogue_handle_input sc a st events = (sc', a', r)"
  shows "0 \<le> i \<and> i < int (length choices)
       \<and> trust_get (save a') (dl_npc_id sc) =
           trust_get (save a) (dl_npc_id sc) + trust_delta_of (choices ! nat i)
       \<and> (\<forall>other. other \<noteq> dl_npc_id sc \<longrightarrow> trust_get (save a') other = trust_get (save a) other)
       \<and> (truthy (c_next (choices ! nat i)) \<longrightarrow>
            c_next (choices ! nat i) = Some (dl_node_id sc') \<and> dl_selected_choice sc' = 0 \<and> r = DlStay)
       \<and> (\<not> truthy (c_next (choices ! nat i)) \<longrightarrow>
            dl_node_id sc' = dl_node_id sc \<and> dl_selected_choice sc' = i
            \<and> (starts_challenge nd = None \<longrightarrow> r = DlStay))"
proof -
  obtain c cs where cs: "choices = c # cs" using assms(5) by (cases choices) auto
  have rng: "0 \<le> i \<and> i < int (length choices)"
    using assms(5,6) clamp_selection_range[of "length choices"]
    by (simp add: move_selection_def)
  have ne: "nd \<noteq> empty_node" using assms(4) by (auto simp: empty_node_def)
  let ?sc1 = "sc\<lparr>dl_selected_choice := i\<rparr>"
  let ?a1 = "a\<lparr>save := apply_trust (dl_npc_id sc) (trust_delta_of (choices ! nat i)) (save a)\<rparr>"
  show ?thesis
  proof (cases "truthy (c_next (choices ! nat i))")
    case True
    then have res: "(sc', a', r) = (?sc1\<lparr>dl_node_id := the (c_next (choices ! nat i)),
                         dl_selected_choice := 0\<rparr>, ?a1, DlStay)"
      using assms(1-4,6,7) cs
      by (simp add: dialogue_handle_input_def Let_def)
    from True have "c_next (choices ! nat i) = Some (the (c_next (choices ! nat i)))"
      by (auto simp: truthy_def split: option.splits)
    with res rng True show ?thesis
      by (simp add: trust_get_apply_trust)
  next
    case False
    then have res: "(sc', a', r) = dialogue_tail ?sc1 ?a1 nd"
      using assms(1-4,6,7) cs
      by (simp add: dialogue_handle_input_def Let_def)
    have "sc' = ?sc1" using dialogue_tail_scene[of ?sc1 ?a1 nd] res by (metis fst_conv)
    moreover have "save a' = save ?a1"
      using dialogue_tail_save[of ?sc1 ?a1 nd] res by (metis fst_conv snd_conv)
    moreover have "starts_challenge nd = None \<longrightarrow> r = DlStay"
      using dialogue_tail_stay[OF _ ne, of ?sc1 ?a1] res by (metis snd_conv)
    ultimately show ?thesis using rng False
      by (simp add: trust_get_apply_trust)
  qed
qed


theorem choice_confirm_applies_trust_witness:
  "trust_get (save (fst (snd (dialogue_handle_input dialogue0 app0 st_confirm [KEYDOWN_K_DOWN])))) ''aya'' = 3
   \<and> dl_node_id (fst (dialogue_handle_input dialogue0 app0 st_confirm [KEYDOWN_K_DOWN])) = ''intro''
   \<and> trust_get (save (fst (snd (dialogue_handle_input dialogue0 app0 st_confirm [])))) ''aya'' = - 2
   \<and> dl_node_id (fst (dialogue_handle_input dialogue0 app0 st_confirm [])) = ''bad''"
proof -
  let ?cs = "the (n_choices node_choices0)"
  have h: "\<not> cancel_pressed st_confirm" "confirm_pressed st_confirm"
    "dl_nodes dialogue0 (dl_node_id dialogue0) = Some node_choices0"
    "n_choices node_choices0 = Some ?cs" "?cs \<noteq> []"
    by (simp_all add: st_confirm_def dialogue0_def node_choices0_def)
  have i1: "move_selection (dl_selected_choice dialogue0) [KEYDOWN_K_DOWN] (length ?cs) = 1"
    and i0: "move_selection (dl_selected_choice dialogue0) [] (length ?cs) = 0"
    by (simp_all add: move_selection_def clamp_selection_def dialogue0_def node_choices0_def)
  have t0: "trust_get (save app0) ''aya'' = 0"
    by (simp add: app0_def save0_def trust_get_def trust_of_def)
  have c1: "trust_delta_of (?cs ! nat 1) = 3" "\<not> truthy (c_next (?cs ! nat 1))"
    and c0: "trust_delta_of (?cs ! nat 0) = - 2" "c_next (?cs ! nat 0) = Some ''bad''"
      "truthy (c_next (?cs ! nat 0))"
    by (simp_all add: node_choices0_def trust_delta_of_def truthy_def)
  have id: "dl_npc_id dialogue0 = ''aya''" "dl_node_id dialogue0 = ''intro''"
    by (simp_all add: dialogue0_def)
  have p1: "dialogue_handle_input dialogue0 app0 st_confirm [KEYDOWN_K_DOWN] =
      (fst (dialogue_handle_input dialogue0 app0 st_confirm [KEYDOWN_K_DOWN]),
       fst (snd (dialogue_handle_input dialogue0 app0 st_confirm [KEYDOWN_K_DOWN])),
       snd (snd (dialogue_handle_input dialogue0 app0 st_confirm [KEYDOWN_K_DOWN])))"
    and p0: "dialogue_handle_input dialogue0 app0 st_confirm [] =
      (fst (dialogue_handle_input dialogue0 app0 st_confirm []),
       fst (snd (dialogue_handle_input dialogue0 app0 st_confirm [])),
       snd (snd (dialogue_handle_input dialogue0 app0 st_confirm [])))"
    by simp_all
  from choice_confirm_applies_trust[OF h i1[symmetric] p1]
       choice_confirm_applies_trust[OF h i0[symmetric] p0]
  show ?thesis
    using t0 c1 c0 id by simp
qed

text \<open>
  C9: when the current node id has no entry in the node graph, every input ends the
  dialogue: the save document is written and the scene hands back the return scene.
\<close>

theorem missing_node_ends_dialogue:
  assumes "dl_nodes sc (dl_node_id sc) = None"
  shows "dialogue_handle_input sc a st events =
           (sc, a\<lparr>disk := Some (save a)\<rparr>, DlReturn (dl_return_scene sc))"
proof -
  have "starts_challenge empty_node = None" "n_choices empty_node = None"
    "\<not> truthy (n_next empty_node)"
    by (simp_all add: starts_challenge_def empty_node_def truthy_def)
  then show ?thesis
    using assms by (simp add: dialogue_handle_input_def dialogue_tail_def save_game_def)
qed

theorem missing_node_ends_dialogue_witness:
  "dl_nodes (dialogue0\<lparr>dl_node_id := ''gone''\<rparr>) ''gone'' = None
   \<and> dialogue_handle_input (dialogue0\<lparr>dl_node_id := ''gone''\<rparr>) app0 st_confirm [] =
       (dialogue0\<lparr>dl_node_id := ''gone''\<rparr>, app0\<lparr>disk := Some (save app0)\<rparr>, DlReturn ''world'')"
proof -
  have h: "dl_nodes (dialogue0\<lparr>dl_node_id := ''gone''\<rparr>) (dl_node_id (dialogue0\<lparr>dl_node_id := ''gone''\<rparr>)) = None"
    by (simp add: dialogue0_def)
  from missing_node_ends_dialogue[OF h, of app0 st_confirm "[]"] h show ?thesis
    by (simp add: dialogue0_def)
qed

text \<open>
  C10, as stated, fails: on a node without choices that carries both a \<open>next\<close> id and a
  \<^verbatim>\<open>start_challenge\<close> action, a confirm (cancel not pressed, no choice committed) advances
  to the next node and stays in the dialogue instead of starting the quiz.
\<close>

theorem action_skipped_by_next_confirm:
  "starts_challenge node_next_action0 = Some ''phishing_1''
   \<and> dialogue_handle_input (dialogue0\<lparr>dl_node_id := ''quiz''\<rparr>) app0 st_confirm [] =
       (dialogue0\<lparr>dl_node_id := ''after''\<rparr>, app0, DlStay)"
  by (simp add: starts_challenge_def node_next_action0_def dialogue_handle_input_def
      dialogue0_def st_confirm_def truthy_def)

text \<open>
  C10, amended: when the current node declares an action of type \<^verbatim>\<open>start_challenge\<close> with a
  non-empty \<^verbatim>\<open>challenge_set\<close>, \<^verbatim>\<open>handle_input\<close> saves the game and transitions to the quiz
  scene on that same frame, passing the dialogue's own return scene, for every input with
  cancel not pressed on which the confirm does not move the dialogue to another node;
  a confirm that commits a choice carrying a next-node id, or that follows the \<open>next\<close> id
  of a node without choices, stays in the dialogue instead.
\<close>

theorem action_starts_challenge:
  assumes "\<not> cancel_pressed st"
    and "dl_nodes sc (dl_node_id sc) = Some nd"
    and "n_action nd = Some act" and "act_type act = Some ''start_challenge''"
    and "act_challenge_set act = Some ch_set" and "ch_set \<noteq> []"
  shows "(\<not> confirm_advances sc st events \<longrightarrow>
            snd (snd (dialogue_handle_input sc a st events)) = DlChallenge (dl_return_scene sc) ch_set
            \<and> disk (fst (snd (dialogue_handle_input sc a st events)))
                = Some (save (fst (snd (dialogue_handle_input sc a st events)))))
       \<and> (confirm_advances sc st events \<longrightarrow>
            snd (snd (dialogue_handle_input sc a st events)) = DlStay)"
proof -
  have sc: "starts_challenge nd = Some ch_set"
    using assms(3-6) by (simp add: starts_challenge_def)
  have tail: "dialogue_tail sc1 a1 nd = (sc1, save_game a1, DlChallenge (dl_return_scene sc1) ch_set)"
    for sc1 :: "'a dialogue_scene" and a1
    by (simp add: dialogue_tail_def sc)
  show ?thesis
  proof (cases "n_choices nd")
    case None
    then show ?thesis
      using assms(1,2) by (simp add: dialogue_handle_input_def confirm_advances_def tail save_game_def)
  next
    case (Some l)
    show ?thesis
    proof (cases l)
      case Nil
      with Some show ?thesis
        using assms(1,2)
        by (simp add: dialogue_handle_input_def confirm_advances_def tail save_game_def)
    next
      case (Cons c cs)
      with Some show ?thesis
        using assms(1,2)
        by (simp add: dialogue_handle_input_def confirm_advances_def tail save_game_def Let_def)
    qed
  qed
qed

theorem action_starts_challenge_witness:
  "\<not> confirm_advances (dialogue0\<lparr>dl_node_id := ''quiz''\<rparr>) st_idle []
   \<and> snd (snd (dialogue_handle_input (dialogue0\<lparr>dl_node_id := ''quiz''\<rparr>) app0 st_idle []))
       = DlChallenge ''world'' ''phishing_1''
   \<and> confirm_advances (dialogue0\<lparr>dl_node_id := ''quiz''\<rparr>) st_confirm []
   \<and> snd (snd (dialogue_handle_input (dialogue0\<lparr>dl_node_id := ''quiz''\<rparr>) app0 st_confirm [])) = DlStay"
proof -
  let ?sc = "dialogue0\<lparr>dl_node_id := ''quiz''\<rparr>"
  let ?act = "\<lparr> act_type = Some ''start_challenge'', act_challenge_set = Some ''phishing_1'' \<rparr>"
  have h: "dl_nodes ?sc (dl_node_id ?sc) = Some node_next_action0"
    "n_action node_next_action0 = Some ?act" "act_type ?act = Some ''start_challenge''"
    "act_challenge_set ?act = Some ''phishing_1''" "''phishing_1'' \<noteq> []"
    by (simp_all add: dialogue0_def node_next_action0_def)
  have c: "\<not> cancel_pressed st_idle" "\<not> cancel_pressed st_confirm"
    by (simp_all add: st_idle_def st_confirm_def)
  have adv: "\<not> confirm_advances ?sc st_idle []" "confirm_advances ?sc st_confirm []"
    by (simp_all add: confirm_advances_def st_idle_def st_confirm_def dialogue0_def
        node_next_action0_def truthy_def)
  from action_starts_challenge[OF c(1) h, of "[]" app0]
       action_starts_challenge[OF c(2) h, of "[]" app0] adv
  show ?thesis by (simp add: dialogue0_def)
qed

section \<open>World controller: movement and collision\<close>

lemma colliderect_solid:
  "solid a \<Longrightarrow> solid b \<Longrightarrow>
   colliderect a b \<longleftrightarrow>
     r_x a < r_x b + r_w b \<and> r_y a < r_y b + r_h b
     \<and> r_x b < r_x a + r_w a \<and> r_y b < r_y a + r_h a"
  by (auto simp: colliderect_def solid_def)

lemma py_int_clamp:
  "py_int (clamp (real_of_int x) 0 (real_of_int hi)) = (if x < 0 then 0 else if x > hi then hi else x)"
  by (simp add: py_int_def clamp_def)

lemma clamp_to_bounds_eq:
  "clamp_to_bounds b p =
     p\<lparr>r_x := (if r_x p < 0 then 0 else if r_x p > r_w b - r_w p then r_w b - r_w p else r_x p),
       r_y := (if r_y p < 0 then 0 else if r_y p > r_h b - r_h p then r_h b - r_h p else r_y p)\<rparr>"
  by (simp add: clamp_to_bounds_def Let_def py_int_clamp del: of_int_diff)

lemma collide_size: "r_w (collide dx dy p cs) = r_w p \<and> r_h (collide dx dy p cs) = r_h p"
  by (induction cs arbitrary: p) (simp_all add: push_back_def Let_def)

lemma collide_right:
  assumes "dx > 0" and "solid p" and "\<forall>c\<in>set cs. solid c"
    and "clear_of cs (p\<lparr>r_x := e0\<rparr>)" and "e0 \<le> r_x p" and "r_x p \<le> e0 + r_w p"
  shows "e0 \<le> r_x (collide dx 0 p cs) \<and> r_x (collide dx 0 p cs) \<le> r_x p
       \<and> r_y (collide dx 0 p cs) = r_y p \<and> clear_of cs (collide dx 0 p cs)"
  using assms
proof (induction cs arbitrary: p)
  case Nil
  then show ?case by (simp add: clear_of_def)
next
  case (Cons c cs)
  let ?p' = "if colliderect p c then push_back dx 0 p c else p"
  have sc: "solid c" and sp0: "solid (p\<lparr>r_x := e0\<rparr>)" using Cons.prems by (simp_all add: solid_def)
  have c0: "\<not> colliderect (p\<lparr>r_x := e0\<rparr>) c" and cl: "clear_of cs (p\<lparr>r_x := e0\<rparr>)"
    using Cons.prems(4) by (simp_all add: clear_of_def)
  have p': "solid ?p'" "r_w ?p' = r_w p" "r_y ?p' = r_y p" "r_h ?p' = r_h p"
    "e0 \<le> r_x ?p'" "r_x ?p' \<le> r_x p"
    using Cons.prems(1,2,5,6) c0 sc sp0
    by (auto simp: push_back_def solid_def colliderect_solid)
  have eq0: "?p'\<lparr>r_x := e0\<rparr> = p\<lparr>r_x := e0\<rparr>"
    using Cons.prems(1) by (simp add: push_back_def)
  have ih: "e0 \<le> r_x (collide dx 0 ?p' cs) \<and> r_x (collide dx 0 ?p' cs) \<le> r_x ?p'
       \<and> r_y (collide dx 0 ?p' cs) = r_y ?p' \<and> clear_of cs (collide dx 0 ?p' cs)"
    using Cons.IH[of ?p'] Cons.prems(1,3,6) p' cl eq0 by simp
  let ?q = "collide dx 0 ?p' cs"
  have sq: "solid ?q" using collide_size[of dx 0 ?p' cs] p' by (simp add: solid_def)
  have "\<not> colliderect ?q c"
    using ih p' c0 sc sp0 sq Cons.prems(1,2,5,6) collide_size[of dx 0 ?p' cs]
    by (auto simp: colliderect_solid push_back_def solid_def split: if_splits)
  with ih p' show ?case by (simp add: clear_of_def)
qed

lemma collide_left:
  assumes "dx < 0" and "solid p" and "\<forall>c\<in>set cs. solid c"
    and "clear_of cs (p\<lparr>r_x := e0\<rparr>)" and "r_x p \<le> e0" and "e0 \<le> r_x p + r_w p"
  shows "r_x (collide dx 0 p cs) \<le> e0 \<and> r_x p \<le> r_x (collide dx 0 p cs)
       \<and> r_y (collide dx 0 p cs) = r_y p \<and> clear_of cs (collide dx 0 p cs)"
  using assms
proof (induction cs arbitrary: p)
  case Nil
  then show ?case by (simp add: clear_of_def)
next
  case (Cons c cs)
  let ?p' = "if colliderect p c then push_back dx 0 p c else p"
  have sc: "solid c" and sp0: "solid (p\<lparr>r_x := e0\<rparr>)" using Cons.prems by (simp_all add: solid_def)
  have c0: "\<not> colliderect (p\<lparr>r_x := e0\<rparr>) c" and cl: "clear_of cs (p\<lparr>r_x := e0\<rparr>)"
    using Cons.prems(4) by (simp_all add: clear_of_def)
  have p': "solid ?p'" "r_w ?p' = r_w p" "r_y ?p' = r_y p" "r_h ?p' = r_h p"
    "r_x ?p' \<le> e0" "r_x p \<le> r_x ?p'"
    using Cons.prems(1,2,5,6) c0 sc sp0
    by (auto simp: push_back_def solid_def colliderect_solid r_right_def r_bottom_def)
  have eq0: "?p'\<lparr>r_x := e0\<rparr> = p\<lparr>r_x := e0\<rparr>"
    using Cons.prems(1) by (simp add: push_back_def)
  have ih: "r_x (collide dx 0 ?p' cs) \<le> e0 \<and> r_x ?p' \<le> r_x (collide dx 0 ?p' cs)
       \<and> r_y (collide dx 0 ?p' cs) = r_y ?p' \<and> clear_of cs (collide dx 0 ?p' cs)"
    using Cons.IH[of ?p'] Cons.prems(1,3,6) p' cl eq0 by simp
  let ?q = "collide dx 0 ?p' cs"
  have sq: "solid ?q" using collide_size[of dx 0 ?p' cs] p' by (simp add: solid_def)
  have "\<not> colliderect ?q c"
    using ih p' c0 sc sp0 sq Cons.prems(1,2,5,6) collide_size[of dx 0 ?p' cs]
    by (auto simp: colliderect_solid push_back_def solid_def r_right_def r_bottom_def split: if_splits)
  with ih p' show ?case by (simp add: clear_of_def)
qed

lemma collide_down:
  assumes "dy > 0" and "solid p" and "\<forall>c\<in>set cs. solid c"
    and "clear_of cs (p\<lparr>r_y := e0\<rparr>)" and "e0 \<le> r_y p" and "r_y p \<le> e0 + r_h p"
  shows "e0 \<le> r_y (collide 0 dy p cs) \<and> r_y (collide 0 dy p cs) \<le> r_y p
       \<and> r_x (collide 0 dy p cs) = r_x p \<and> clear_of cs (collide 0 dy p cs)"
  using assms
proof (induction cs arbitrary: p)
  case Nil
  then show ?case by (simp add: clear_of_def)
next
  case (Cons c cs)
  let ?p' = "if colliderect p c then push_back 0 dy p c else p"
  have sc: "solid c" and sp0: "solid (p\<lparr>r_y := e0\<rparr>)" using Cons.prems by (simp_all add: solid_def)
  have c0: "\<not> colliderect (p\<lparr>r_y := e0\<rparr>) c" and cl: "clear_of cs (p\<lparr>r_y := e0\<rparr>)"
    using Cons.prems(4) by (simp_all add: clear_of_def)
  have p': "solid ?p'" "r_h ?p' = r_h p" "r_x ?p' = r_x p" "r_w ?p' = r_w p"
    "e0 \<le> r_y ?p'" "r_y ?p' \<le> r_y p"
    using Cons.prems(1,2,5,6) c0 sc sp0
    by (auto simp: push_back_def solid_def colliderect_solid)
  have eq0: "?p'\<lparr>r_y := e0\<rparr> = p\<lparr>r_y := e0\<rparr>"
    using Cons.prems(1) by (simp add: push_back_def)
  have ih: "e0 \<le> r_y (collide 0 dy ?p' cs) \<and> r_y (collide 0 dy ?p' cs) \<le> r_y ?p'
       \<and> r_x (collide 0 dy ?p' cs) = r_x ?p' \<and> clear_of cs (collide 0 dy ?p' cs)"
    using Cons.IH[of ?p'] Cons.prems(1,3,6) p' cl eq0 by simp
  let ?q = "collide 0 dy ?p' cs"
  have sq: "solid ?q" using collide_size[of 0 dy ?p' cs] p' by (simp add: solid_def)
  have "\<not> colliderect ?q c"
    using ih p' c0 sc sp0 sq Cons.prems(1,2,5,6) collide_size[of 0 dy ?p' cs]
    by (auto simp: colliderect_solid push_back_def solid_def split: if_splits)
  with ih p' show ?case by (simp add: clear_of_def)
qed

lemma collide_up:
  assumes "dy < 0" and "solid p" and "\<forall>c\<in>set cs. solid c"
    and "clear_of cs (p\<lparr>r_y := e0\<rparr>)" and "r_y p \<le> e0" and "e0 \<le> r_y p + r_h p"
  shows "r_y (collide 0 dy p cs) \<le> e0 \<and> r_y p \<le> r_y (collide 0 dy p cs)
       \<and> r_x (collide 0 dy p cs) = r_x p \<and> clear_of cs (collide 0 dy p cs)"
  using assms
proof (induction cs arbitrary: p)
  case Nil
  then show ?case by (simp add: clear_of_def)
next
  case (Cons c cs)
  let ?p' = "if colliderect p c then push_back 0 dy p c else p"
  have sc: "solid c" and sp0: "solid (p\<lparr>r_y := e0\<rparr>)" using Cons.prems by (simp_all add: solid_def)
  have c0: "\<not> colliderect (p\<lparr>r_y := e0\<rparr>) c" and cl: "clear_of cs (p\<lparr>r_y := e0\<rparr>)"
    using Cons.prems(4) by (simp_all add: clear_of_def)
  have p': "solid ?p'" "r_h ?p' = r_h p" "r_x ?p' = r_x p" "r_w ?p' = r_w p"
    "r_y ?p' \<le> e0" "r_y p \<le> r_y ?p'"
    using Cons.prems(1,2,5,6) c0 sc sp0
    by (auto simp: push_back_def solid_def colliderect_solid r_right_def r_bottom_def)
  have eq0: "?p'\<lparr>r_y := e0\<rparr> = p\<lparr>r_y := e0\<rparr>"
    using Cons.prems(1) by (simp add: push_back_def)
  have ih: "r_y (collide 0 dy ?p' cs) \<le> e0 \<and> r_y ?p' \<le> r_y (collide 0 dy ?p' cs)
       \<and> r_x (collide 0 dy ?p' cs) = r_x ?p' \<and> clear_of cs (collide 0 dy ?p' cs)"
    using Cons.IH[of ?p'] Cons.prems(1,3,6) p' cl eq0 by simp
  let ?q = "collide 0 dy ?p' cs"
  have sq: "solid ?q" using collide_size[of 0 dy ?p' cs] p' by (simp add: solid_def)
  have "\<not> colliderect ?q c"
    using ih p' c0 sc sp0 sq Cons.prems(1,2,5,6) collide_size[of 0 dy ?p' cs]
    by (auto simp: colliderect_solid push_back_def solid_def r_right_def r_bottom_def split: if_splits)
  with ih p' show ?case by (simp add: clear_of_def)
qed

lemma py_int_sign:
  "0 < v \<Longrightarrow> 0 \<le> py_int v" "v < 0 \<Longrightarrow> py_int v \<le> 0" "py_int 0 = 0"
  by (simp_all add: py_int_def ceiling_le_zero)

lemma move_x_valid:
  assumes ib: "in_bounds (world_bounds_rect g) p" and cl: "clear_of (g_colliders g) p"
    and sp: "solid p" and sc: "\<forall>c\<in>set (g_colliders g). solid c"
    and k: "\<bar>py_int dx\<bar> \<le> r_w p"
  shows "in_bounds (world_bounds_rect g) (move_and_collide g p dx 0)
       \<and> clear_of (g_colliders g) (move_and_collide g p dx 0)
       \<and> r_w (move_and_collide g p dx 0) = r_w p \<and> r_h (move_and_collide g p dx 0) = r_h p"
proof (cases "dx = 0")
  case True
  then show ?thesis using ib cl by (simp add: move_and_collide_def)
next
  case False
  let ?b = "world_bounds_rect g"
  let ?p3 = "clamp_to_bounds ?b (p\<lparr>r_x := r_x p + py_int dx\<rparr>)"
  have mv: "move_and_collide g p dx 0 = collide dx 0 ?p3 (g_colliders g)"
    using False by (simp add: move_and_collide_def Let_def py_int_sign)
  have bx: "0 \<le> r_x p" "r_x p + r_w p \<le> g_pixel_w g" "0 \<le> r_y p" "r_y p + r_h p \<le> g_pixel_h g"
    using ib by (simp_all add: in_bounds_def world_bounds_rect_def r_right_def r_bottom_def)
  have p3: "r_y ?p3 = r_y p" "r_w ?p3 = r_w p" "r_h ?p3 = r_h p" "?p3\<lparr>r_x := r_x p\<rparr> = p"
    "0 \<le> r_x ?p3" "r_x ?p3 + r_w p \<le> g_pixel_w g"
    using bx by (simp_all add: clamp_to_bounds_eq world_bounds_rect_def)
  have sp3: "solid ?p3" using sp p3 by (simp add: solid_def)
  have sz: "r_w (collide dx 0 ?p3 (g_colliders g)) = r_w p" "r_h (collide dx 0 ?p3 (g_colliders g)) = r_h p"
    using collide_size[of dx 0 ?p3 "g_colliders g"] p3 by simp_all
  show ?thesis
  proof (cases "dx > 0")
    case True
    then have "0 \<le> py_int dx" by (simp add: py_int_sign)
    then have rng: "r_x p \<le> r_x ?p3" "r_x ?p3 \<le> r_x p + r_w ?p3"
      using k bx by (simp_all add: clamp_to_bounds_eq world_bounds_rect_def)
    from collide_right[OF True sp3 sc _ rng, unfolded p3] cl
    have "r_x p \<le> r_x (collide dx 0 ?p3 (g_colliders g))"
      "r_x (collide dx 0 ?p3 (g_colliders g)) \<le> r_x ?p3"
      "r_y (collide dx 0 ?p3 (g_colliders g)) = r_y p"
      "clear_of (g_colliders g) (collide dx 0 ?p3 (g_colliders g))"
      by simp_all
    then show ?thesis
      using mv sz p3 bx
      by (simp add: in_bounds_def world_bounds_rect_def r_right_def r_bottom_def)
  next
    case False
    with \<open>dx \<noteq> 0\<close> have neg: "dx < 0" by simp
    then have "py_int dx \<le> 0" by (simp add: py_int_sign)
    then have rng: "r_x ?p3 \<le> r_x p" "r_x p \<le> r_x ?p3 + r_w ?p3"
      using k bx by (simp_all add: clamp_to_bounds_eq world_bounds_rect_def)
    from collide_left[OF neg sp3 sc _ rng, unfolded p3] cl
    have "r_x (collide dx 0 ?p3 (g_colliders g)) \<le> r_x p"
      "r_x ?p3 \<le> r_x (collide dx 0 ?p3 (g_colliders g))"
      "r_y (collide dx 0 ?p3 (g_colliders g)) = r_y p"
      "clear_of (g_colliders g) (collide dx 0 ?p3 (g_colliders g))"
      by simp_all
    then show ?thesis
      using mv sz p3 bx
      by (simp add: in_bounds_def world_bounds_rect_def r_right_def r_bottom_def)
  qed
qed

lemma move_y_valid:
  assumes ib: "in_bounds (world_bounds_rect g) p" and cl: "clear_of (g_colliders g) p"
    and sp: "solid p" and sc: "\<forall>c\<in>set (g_colliders g). solid c"
    and k: "\<bar>py_int dy\<bar> \<le> r_h p"
  shows "in_bounds (world_bounds_rect g) (move_and_collide g p 0 dy)
       \<and> clear_of (g_colliders g) (move_and_collide g p 0 dy)
       \<and> r_h (move_and_collide g p 0 dy) = r_h p \<and> r_w (move_and_collide g p 0 dy) = r_w p"
proof (cases "dy = 0")
  case True
  then show ?thesis using ib cl by (simp add: move_and_collide_def)
next
  case False
  let ?b = "world_bounds_rect g"
  let ?p3 = "clamp_to_bounds ?b (p\<lparr>r_y := r_y p + py_int dy\<rparr>)"
  have mv: "move_and_collide g p 0 dy = collide 0 dy ?p3 (g_colliders g)"
    using False by (simp add: move_and_collide_def Let_def py_int_sign)
  have bx: "0 \<le> r_y p" "r_y p + r_h p \<le> g_pixel_h g" "0 \<le> r_x p" "r_x p + r_w p \<le> g_pixel_w g"
    using ib by (simp_all add: in_bounds_def world_bounds_rect_def r_right_def r_bottom_def)
  have p3: "r_x ?p3 = r_x p" "r_h ?p3 = r_h p" "r_w ?p3 = r_w p" "?p3\<lparr>r_y := r_y p\<rparr> = p"
    "0 \<le> r_y ?p3" "r_y ?p3 + r_h p \<le> g_pixel_h g"
    using bx by (simp_all add: clamp_to_bounds_eq world_bounds_rect_def)
  have sp3: "solid ?p3" using sp p3 by (simp add: solid_def)
  have sz: "r_h (collide 0 dy ?p3 (g_colliders g)) = r_h p" "r_w (collide 0 dy ?p3 (g_colliders g)) = r_w p"
    using collide_size[of 0 dy ?p3 "g_colliders g"] p3 by simp_all
  show ?thesis
  proof (cases "dy > 0")
    case True
    then have "0 \<le> py_int dy" by (simp add: py_int_sign)
    then have rng: "r_y p \<le> r_y ?p3" "r_y ?p3 \<le> r_y p + r_h ?p3"
      using k bx by (simp_all add: clamp_to_bounds_eq world_bounds_rect_def)
    from collide_down[OF True sp3 sc _ rng, unfolded p3] cl
    have "r_y p \<le> r_y (collide 0 dy ?p3 (g_colliders g))"
      "r_y (collide 0 dy ?p3 (g_colliders g)) \<le> r_y ?p3"
      "r_x (collide 0 dy ?p3 (g_colliders g)) = r_x p"
      "clear_of (g_colliders g) (collide 0 dy ?p3 (g_colliders g))"
      by simp_all
    then show ?thesis
      using mv sz p3 bx
      by (simp add: in_bounds_def world_bounds_rect_def r_right_def r_bottom_def)
  next
    case False
    with \<open>dy \<noteq> 0\<close> have neg: "dy < 0" by simp
    then have "py_int dy \<le> 0" by (simp add: py_int_sign)
    then have rng: "r_y ?p3 \<le> r_y p" "r_y p \<le> r_y ?p3 + r_h ?p3"
      using k bx by (simp_all add: clamp_to_bounds_eq world_bounds_rect_def)
    from collide_up[OF neg sp3 sc _ rng, unfolded p3] cl
    have "r_y (collide 0 dy ?p3 (g_colliders g)) \<le> r_y p"
      "r_y ?p3 \<le> r_y (collide 0 dy ?p3 (g_colliders g))"
      "r_x (collide 0 dy ?p3 (g_colliders g)) = r_x p"
      "clear_of (g_colliders g) (collide 0 dy ?p3 (g_colliders g))"
      by simp_all
    then show ?thesis
      using mv sz p3 bx
      by (simp add: in_bounds_def world_bounds_rect_def r_right_def r_bottom_def)
  qed
qed

lemma velocity_bounds:
  "\<bar>fst (velocity st)\<bar> \<le> 1 \<and> \<bar>snd (velocity st)\<bar> \<le> 1"
proof -
  have "1 \<le> sqrt 2" by simp
  then have "1 / sqrt 2 \<le> 1" by simp
  then show ?thesis
    by (auto simp: velocity_def Let_def abs_if)
qed

lemma py_int_abs_le:
  assumes "\<bar>v\<bar> \<le> real_of_int n"
  shows "\<bar>py_int v\<bar> \<le> n"
proof (cases "0 \<le> v")
  case True
  then have "\<lfloor>v\<rfloor> \<le> n" "0 \<le> \<lfloor>v\<rfloor>" using assms by (simp_all add: floor_le_iff)
  with True show ?thesis by (simp add: py_int_def)
next
  case False
  then have "- n \<le> \<lceil>v\<rceil>" "\<lceil>v\<rceil> \<le> 0" using assms by (simp_all add: le_ceiling_iff ceiling_le_zero)
  with False show ?thesis by (simp add: py_int_def)
qed

lemma displacement_bounds:
  assumes "0 \<le> dt" and "0 \<le> PLAYER_SPEED c" and "PLAYER_SPEED c * dt \<le> real_of_int n"
  shows "\<bar>py_int (fst (displacement c st dt))\<bar> \<le> n \<and> \<bar>py_int (snd (displacement c st dt))\<bar> \<le> n"
proof -
  have nn: "0 \<le> PLAYER_SPEED c * dt" using assms by simp
  have "\<bar>v * PLAYER_SPEED c * dt\<bar> \<le> real_of_int n" if "\<bar>v\<bar> \<le> 1" for v
  proof -
    have "\<bar>v * PLAYER_SPEED c * dt\<bar> = \<bar>v\<bar> * (PLAYER_SPEED c * dt)"
      using assms(1,2) by (simp add: abs_mult mult.assoc)
    also have "\<dots> \<le> 1 * (PLAYER_SPEED c * dt)"
      using that nn by (intro mult_right_mono) simp_all
    finally show ?thesis using assms(3) by simp
  qed
  with velocity_bounds[of st] show ?thesis
    by (simp add: displacement_def py_int_abs_le)
qed

lemma integrate_valid:
  assumes ib: "in_bounds (world_bounds_rect g) p" and cl: "clear_of (g_colliders g) p"
    and sp: "solid p" and sc: "\<forall>c\<in>set (g_colliders g). solid c"
    and dt: "0 \<le> dt" and sp0: "0 \<le> PLAYER_SPEED c"
    and w: "PLAYER_SPEED c * dt \<le> real_of_int (r_w p)"
    and h: "PLAYER_SPEED c * dt \<le> real_of_int (r_h p)"
  shows "in_bounds (world_bounds_rect g) (integrate c g p st dt)
       \<and> clear_of (g_colliders g) (integrate c g p st dt)"
proof -
  let ?dx = "fst (displacement c st dt)" and ?dy = "snd (displacement c st dt)"
  let ?p1 = "move_and_collide g p ?dx 0"
  have kx: "\<bar>py_int ?dx\<bar> \<le> r_w p" using displacement_bounds[OF dt sp0 w] by simp
  have ky: "\<bar>py_int ?dy\<bar> \<le> r_h p" using displacement_bounds[OF dt sp0 h] by simp
  note s1 = move_x_valid[OF ib cl sp sc kx]
  have sp1: "solid ?p1" using s1 sp by (simp add: solid_def)
  have ky1: "\<bar>py_int ?dy\<bar> \<le> r_h ?p1" using s1 ky by simp
  from move_y_valid[OF _ _ sp1 sc ky1] s1 show ?thesis
    by (simp add: integrate_def Let_def)
qed

text \<open>
  C1, amended: if the player rectangle lies within the world bounds and overlaps no
  collider before a frame update, the player and every collider have positive size, and
  the distance travelled in the frame, \<open>PLAYER_SPEED * dt\<close> with \<open>dt \<ge> 0\<close>, exceeds
  neither the player's width nor its height, then after the two per-axis
  move-and-collide steps the player rectangle lies within the world bounds and overlaps
  no collider, whatever the movement flags.
\<close>

theorem update_keeps_player_valid:
  assumes "in_bounds (world_bounds_rect (w_geo sc)) (w_player sc)"
    and "clear_of (g_colliders (w_geo sc)) (w_player sc)"
    and "solid (w_player sc)" and "\<forall>c\<in>set (g_colliders (w_geo sc)). solid c"
    and "0 \<le> dt" and "0 \<le> PLAYER_SPEED c"
    and "PLAYER_SPEED c * dt \<le> real_of_int (r_w (w_player sc))"
    and "PLAYER_SPEED c * dt \<le> real_of_int (r_h (w_player sc))"
  shows "in_bounds (world_bounds_rect (w_geo sc)) (w_player (fst (world_update c sc a st dt)))
       \<and> clear_of (g_colliders (w_geo sc)) (w_player (fst (world_update c sc a st dt)))"
  using integrate_valid[OF assms] by (simp add: world_update_def Let_def)

lemma update_right_quarter:
  "w_player (fst (world_update consts0 (scene_walls 0 10) a st_right (1 / 4)))
     = \<lparr> r_x = 32, r_y = 10, r_w = 18, r_h = 22 \<rparr>"
  by (simp add: world_update_def integrate_def displacement_def velocity_def consts0_def
      scene_walls_def geo_walls_def st_right_def st_idle_def move_and_collide_def Let_def
      clamp_to_bounds_def clamp_def py_int_def world_bounds_rect_def colliderect_def
      push_back_def)

text \<open>
  C1, as stated, fails. A long frame (\<open>dt = 1/4\<close>, 45 pixels to the right) carries a
  player that was inside the bounds and clear of every collider past the first wall into
  the second; the push-back out of the second wall puts it into the first, which the loop
  has already passed. And with no movement flag set the early return leaves a player that
  was placed outside the bounds where it is.
\<close>

theorem update_can_leave_player_in_collider:
  "in_bounds (world_bounds_rect geo_walls) (w_player (scene_walls 0 10))
   \<and> clear_of (g_colliders geo_walls) (w_player (scene_walls 0 10))
   \<and> w_player (fst (world_update consts0 (scene_walls 0 10) app0 st_right (1 / 4)))
       = \<lparr> r_x = 32, r_y = 10, r_w = 18, r_h = 22 \<rparr>
   \<and> colliderect (w_player (fst (world_update consts0 (scene_walls 0 10) app0 st_right (1 / 4))))
       (g_colliders geo_walls ! 0)
   \<and> w_player (fst (world_update consts0 (scene_walls 35 190) app0 st_idle (1 / 60)))
       = \<lparr> r_x = 35, r_y = 190, r_w = 18, r_h = 22 \<rparr>
   \<and> \<not> in_bounds (world_bounds_rect geo_walls)
         (w_player (fst (world_update consts0 (scene_walls 35 190) app0 st_idle (1 / 60))))"
proof -
  have idle: "w_player (fst (world_update consts0 (scene_walls 35 190) app0 st_idle (1 / 60)))
       = \<lparr> r_x = 35, r_y = 190, r_w = 18, r_h = 22 \<rparr>"
    by (simp add: world_update_def integrate_def displacement_def velocity_def
        scene_walls_def st_idle_def move_and_collide_def Let_def)
  show ?thesis
    unfolding update_right_quarter idle
    by (simp add: in_bounds_def clear_of_def scene_walls_def geo_walls_def
        world_bounds_rect_def colliderect_def r_right_def r_bottom_def)
qed

theorem update_keeps_player_valid_witness:
  "in_bounds (world_bounds_rect geo_walls) (w_player (scene_walls 0 10))
   \<and> clear_of (g_colliders geo_walls) (w_player (scene_walls 0 10))
   \<and> PLAYER_SPEED consts0 * (1 / 10) \<le> real_of_int (r_w (w_player (scene_walls 0 10)))
   \<and> in_bounds (world_bounds_rect geo_walls)
        (w_player (fst (world_update consts0 (scene_walls 0 10) app0 st_right (1 / 10))))
   \<and> clear_of (g_colliders geo_walls)
        (w_player (fst (world_update consts0 (scene_walls 0 10) app0 st_right (1 / 10))))"
proof -
  have h: "in_bounds (world_bounds_rect (w_geo (scene_walls 0 10))) (w_player (scene_walls 0 10))"
    "clear_of (g_colliders (w_geo (scene_walls 0 10))) (w_player (scene_walls 0 10))"
    "solid (w_player (scene_walls 0 10))"
    "\<forall>c\<in>set (g_colliders (w_geo (scene_walls 0 10))). solid c"
    "(0::real) \<le> 1 / 10" "0 \<le> PLAYER_SPEED consts0"
    "PLAYER_SPEED consts0 * (1 / 10) \<le> real_of_int (r_w (w_player (scene_walls 0 10)))"
    "PLAYER_SPEED consts0 * (1 / 10) \<le> real_of_int (r_h (w_player (scene_walls 0 10)))"
    by (simp_all add: in_bounds_def clear_of_def solid_def scene_walls_def geo_walls_def
        consts0_def world_bounds_rect_def colliderect_def r_right_def r_bottom_def)
  have g: "w_geo (scene_walls 0 10) = geo_walls" by (simp add: scene_walls_def)
  from update_keeps_player_valid[OF h, of app0 st_right] h show ?thesis
    by (simp add: g)
qed

section \<open>World controller: diagonal movement\<close>












section \<open>Interaction resolver\<close>




















section \<open>World scene: entering a portal\<close>







section \<open>Save system: loading\<close>

lemma dict_get_dict_set:
  "dict_get (dict_set d k v) k' = (if k' = k then Some v else dict_get d k')"
  by (induction d) (auto simp: dict_get_def)

lemma map_of_obj_set: "map_of (obj_set kvs k v) = (map_of kvs)(k \<mapsto> v)"
  by (induction kvs) auto

lemma dict_get_merge:
  "dict_get (foldl (\<lambda>b (k, v). dict_set b (JStr k) v) base kvs) (JStr k) =
     (case map_of (rev kvs) k of None \<Rightarrow> dict_get base (JStr k) | Some v \<Rightarrow> Some v)"
proof (induction kvs arbitrary: base)
  case Nil
  then show ?case by simp
next
  case (Cons kv kvs)
  obtain k0 v0 where kv: "kv = (k0, v0)" by (cases kv)
  show ?case
    by (simp add: kv Cons.IH dict_get_dict_set map_add_def split: option.splits)
qed

lemma is_dict_sub_set: "is_dict (Some (sub_set j k v))"
  by (cases "(j, k, v)" rule: sub_set.cases) simp_all

lemma has_key_sub_set: "has_key (Some (sub_set j k v)) k"
  by (cases "(j, k, v)" rule: sub_set.cases) (simp_all add: map_of_obj_set dom_map_of_conv_image_fst[symmetric])

lemma sub_get_sub_set: "sub_get (Some (sub_set j k v)) k = Some v"
  by (cases "(j, k, v)" rule: sub_set.cases) (simp_all add: map_of_obj_set)

lemma dict_get_norm_key:
  "dict_get (norm_key name dflt base) k =
     (if k = JStr name \<and> \<not> is_dict (dict_get base (JStr name)) then Some dflt else dict_get base k)"
  by (simp add: norm_key_def dict_get_dict_set)

lemma dict_get_norm_world:
  "dict_get (norm_world base) k =
     (if k = JStr ''world'' then dict_get (norm_world base) (JStr ''world'') else dict_get base k)"
  by (simp add: norm_world_def Let_def dict_get_dict_set)

lemma norm_world_world:
  "is_dict (dict_get (norm_world base) (JStr ''world''))
   \<and> has_key (dict_get (norm_world base) (JStr ''world'')) ''map''"
  by (simp add: norm_world_def Let_def dict_get_dict_set is_dict_sub_set has_key_sub_set)

lemma dict_get_norm_challenges:
  "dict_get (norm_challenges base) k =
     (if k = JStr ''completed'' then dict_get (norm_challenges base) (JStr ''completed'')
      else dict_get base k)"
  by (simp add: norm_challenges_def Let_def dict_get_dict_set)

lemma norm_challenges_completed:
  "is_dict (dict_get base (JStr ''completed'')) \<Longrightarrow>
   is_dict (dict_get (norm_challenges base) (JStr ''completed''))
   \<and> is_list (sub_get (dict_get (norm_challenges base) (JStr ''completed'')) ''challenges'')"
  by (simp add: norm_challenges_def Let_def dict_get_dict_set is_dict_sub_set sub_get_sub_set)

lemma is_dict_norm_key:
  "is_dict dflt' \<Longrightarrow> dflt' = Some dflt \<Longrightarrow> is_dict (dict_get (norm_key name dflt base) (JStr name))"
  by (simp add: dict_get_norm_key)

text \<open>
  What does hold of \<^verbatim>\<open>load_save\<close>: an absent or unparsable file gives the defaults, and a
  file holding a JSON object always gives a document in which \<^verbatim>\<open>world\<close>, \<^verbatim>\<open>player\<close>,
  \<^verbatim>\<open>trust\<close>, \<^verbatim>\<open>scores\<close> and \<^verbatim>\<open>completed\<close> are objects, \<^verbatim>\<open>world.map\<close> exists and
  \<^verbatim>\<open>completed.challenges\<close> is a list, every other key of the file being kept with its value.
\<close>

lemma load_save_object:
  "load_save Absent = Inr default_save \<and> load_save Unparsable = Inr default_save
   \<and> (\<exists>base. load_save (Content (JObj kvs)) = Inr base
         \<and> is_dict (dict_get base (JStr ''world''))
         \<and> has_key (dict_get base (JStr ''world'')) ''map''
         \<and> is_dict (dict_get base (JStr ''player''))
         \<and> is_dict (dict_get base (JStr ''trust''))
         \<and> is_dict (dict_get base (JStr ''scores''))
         \<and> is_dict (dict_get base (JStr ''completed''))
         \<and> is_list (sub_get (dict_get base (JStr ''completed'')) ''challenges'')
         \<and> (\<forall>k v. k \<notin> {''world'', ''player'', ''trust'', ''scores'', ''completed''}
               \<longrightarrow> map_of (rev kvs) k = Some v \<longrightarrow> dict_get base (JStr k) = Some v))"
proof -
  let ?b0 = "foldl (\<lambda>b (k, v). dict_set b (JStr k) v) default_save kvs"
  let ?b1 = "norm_world ?b0"
  let ?b2 = "norm_key ''player'' (JObj [(''x'', JNum 200), (''y'', JNum 200)]) ?b1"
  let ?b3 = "norm_key ''trust'' (JObj []) ?b2"
  let ?b4 = "norm_key ''scores'' default_scores ?b3"
  let ?b5 = "norm_key ''completed'' default_completed ?b4"
  let ?b6 = "norm_challenges ?b5"
  have ls: "load_save (Content (JObj kvs)) = Inr ?b6" by (simp add: load_save_def)
  have d: "is_dict (Some default_scores)" "is_dict (Some default_completed)"
    by (simp_all add: default_scores_def default_completed_def)
  have w: "is_dict (dict_get ?b6 (JStr ''world''))" "has_key (dict_get ?b6 (JStr ''world'')) ''map''"
    using norm_world_world[of ?b0]
    by (simp_all add: dict_get_norm_challenges dict_get_norm_key)
  have p: "is_dict (dict_get ?b6 (JStr ''player''))"
    using is_dict_norm_key[of "Some (JObj [(''x'', JNum 200), (''y'', JNum 200)])" _ "''player''" ?b1]
    by (simp add: dict_get_norm_challenges dict_get_norm_key[of _ _ ?b2] dict_get_norm_key[of _ _ ?b3]
        dict_get_norm_key[of _ _ ?b4])
  have t: "is_dict (dict_get ?b6 (JStr ''trust''))"
    using is_dict_norm_key[of "Some (JObj [])" _ "''trust''" ?b2]
    by (simp add: dict_get_norm_challenges dict_get_norm_key[of _ _ ?b3] dict_get_norm_key[of _ _ ?b4])
  have s: "is_dict (dict_get ?b6 (JStr ''scores''))"
    using is_dict_norm_key[OF d(1) refl, of "''scores''" ?b3]
    by (simp add: dict_get_norm_challenges dict_get_norm_key[of _ _ ?b4])
  have c: "is_dict (dict_get ?b6 (JStr ''completed''))"
    "is_list (sub_get (dict_get ?b6 (JStr ''completed'')) ''challenges'')"
    using norm_challenges_completed[OF is_dict_norm_key[OF d(2) refl, of "''completed''" ?b4]]
    by simp_all
  have u: "dict_get ?b6 (JStr k) = Some v"
    if "k \<notin> {''world'', ''player'', ''trust'', ''scores'', ''completed''}"
      "map_of (rev kvs) k = Some v" for k v
    using that
    by (simp add: dict_get_norm_challenges dict_get_norm_key dict_get_norm_world dict_get_merge)
  show ?thesis
    using ls w p t s c u by (simp add: load_save_def)
qed

text \<open>
  C5 on the code: a save file whose content is valid JSON but not an object makes
  \<^verbatim>\<open>base.update(data)\<close> raise, outside the \<^verbatim>\<open>try\<close> block, so \<^verbatim>\<open>load_save\<close> raises instead of
  returning a document. And a \<^verbatim>\<open>player\<close> object without coordinates is returned as it is:
  only \<^verbatim>\<open>world.map\<close> and \<^verbatim>\<open>completed.challenges\<close> get their defaults back.
\<close>

theorem load_save_raises_on_non_object:
  "load_save (Content (JNum 5)) = Inl TypeError
   \<and> load_save (Content JNull) = Inl TypeError
   \<and> load_save (Content (JArr [JNum 1])) = Inl TypeError
   \<and> load_save (Content (JStr ''abc'')) = Inl ValueError
   \<and> (\<exists>base. load_save (Content (JObj [(''player'', JObj [])])) = Inr base
         \<and> dict_get base (JStr ''player'') = Some (JObj []))"
  by (simp add: load_save_def default_save_def norm_challenges_def norm_key_def norm_world_def
      dict_get_def default_completed_def default_scores_def Let_def)

end
